theory Spec2Isabelle
  imports Main "HOL-Library.Char_ord" "HOL-Library.List_Lexorder" "HOL-Library.Multiset"
begin

section \<open>The directory lister of pyscriptools (list\_project\_dirs.py)\<close>

text \<open>
  The script has two functions with logic of their own: \<open>load_exclusions\<close> (lines 11 to 27)
  reads two sets of names from a JSON file, and \<open>build_tree\<close> (lines 50 to 81) walks a
  directory recursively and appends one node per kept entry to a \<open>rich\<close> tree.  Both talk to
  the outside world only through a handful of library calls: \<open>open\<close> and \<open>json.load\<close> in
  the loader, \<open>os.listdir\<close>, \<open>os.path.isdir\<close>, \<open>os.path.isfile\<close> and \<open>os.path.join\<close> in the
  traversal.  The embedding keeps the code as it is written and takes the answers of these
  calls as data: an exception is a value, the tree that the Python code mutates in place is
  passed and returned, and the recursion carries a depth budget.
\<close>

subsection \<open>Exceptions\<close>

text \<open>
  The exception classes that the library calls above can raise.  \<open>OSError\<close> stands for every
  operating system error that is not one of its listed subclasses.  A handler
  \<open>except PermissionError\<close> catches \<open>PermissionError\<close> only; \<open>JSONDecodeError\<close> and
  \<open>UnicodeDecodeError\<close> are distinct subclasses of \<open>ValueError\<close>.
\<close>

datatype exn =
    PermissionError
  | FileNotFoundError
  | NotADirectoryError
  | IsADirectoryError
  | OSError
  | UnicodeDecodeError
  | JSONDecodeError
  | AttributeError
  | TypeError

subsection \<open>The file system as the traversal sees it\<close>

text \<open>
  A path and an entry name are Python strings; they are compared and sorted character by
  character, by the code of the character, which is the lexicographic order on \<open>string\<close>
  (with a proper prefix before its extensions).  The characters of the model are the 256 of
  \<open>char\<close>.

  The record \<open>os\<close> is one snapshot of the file system, given by the answers of the three
  calls that \<open>build_tree\<close> makes: \<open>listdir\<close> is \<open>os.listdir\<close> (the names in a directory, in
  the order the storage enumerates them, or the exception raised), \<open>isdir\<close> and \<open>isfile\<close> are
  \<open>os.path.isdir\<close> and \<open>os.path.isfile\<close>.  Both classify the entry that the path resolves
  to, so they follow symbolic links: for a link to a directory \<open>isdir\<close> is true, for a link to
  a regular file \<open>isfile\<close> is true, and for a dangling link or a special file both are false.
  The library versions answer \<open>False\<close> when the underlying \<open>stat\<close> fails; the model lets them
  raise as well (\<open>Inl\<close>), so that everything proved holds for any implementation of the two
  calls, and the handler around the loop of \<open>build_tree\<close> has something to catch.
  \<open>islink\<close> is \<open>os.path.islink\<close>: the code never calls it; it is there to state what the
  traversal does with links.
\<close>

type_synonym path = string

record os =
  listdir :: "path \<Rightarrow> exn + string list"
  isdir :: "path \<Rightarrow> exn + bool"
  isfile :: "path \<Rightarrow> exn + bool"
  islink :: "path \<Rightarrow> bool"

text \<open>
  \<open>os.path.join\<close> for two arguments, as \<open>posixpath\<close> defines it: a second part that starts
  with a slash replaces the first; otherwise the parts are joined by one slash, which is left
  out when the first part is empty or already ends with one.
\<close>

definition os_path_join :: "path \<Rightarrow> string \<Rightarrow> path" where
  "os_path_join a b =
     (if b \<noteq> [] \<and> hd b = CHR ''/'' then b
      else if a = [] \<or> last a = CHR ''/'' then a @ b
      else a @ ''/'' @ b)"

text \<open>
  \<open>os.path.basename\<close>: what follows the last slash.  The code does not call it; it is the
  "bare name" of a path, used to state which paths are listed.
\<close>

definition basename :: "path \<Rightarrow> string" where
  "basename p = rev (takeWhile (\<lambda>c. c \<noteq> CHR ''/'') (rev p))"

subsection \<open>The tree\<close>

text \<open>
  A \<open>rich.tree.Tree\<close> is a label with a list of children.  The code builds four kinds of
  label, each by one format string (lines 64, 72, 76 and 79); the model keeps the kind and the
  text that is filled in, and leaves the markup and the glyphs to the renderer.  \<open>add t c\<close> is
  the state of \<open>t\<close> after \<open>t.add(...)\<close> has appended the child \<open>c\<close>.
\<close>

datatype label = Root path | Directory string | File string | PermissionDenied path

datatype tree = Tree (label: label) (children: "tree list")

definition add :: "tree \<Rightarrow> tree \<Rightarrow> tree" where
  "add t c = Tree (label t) (children t @ [c])"

subsection \<open>build\_tree\<close>

text \<open>
  The outcome of a call that has stopped: the node it worked on as the call leaves it, the
  arguments of its \<open>os.listdir\<close> calls in the order they were made, and the exception that
  leaves the call, if any (\<open>None\<close>: the call returns the node).
\<close>

type_synonym run = "tree \<times> path list \<times> exn option"

text \<open>
  The handler of lines 78 and 79, applied to the outcome of the \<open>try\<close> block: a
  \<open>PermissionError\<close> becomes a leaf labelled with \<open>base_dir\<close>; everything else passes.
\<close>

definition except_PermissionError :: "path \<Rightarrow> run \<Rightarrow> run" where
  "except_PermissionError base_dir r =
     (case r of (t, ls, x) \<Rightarrow>
        if x = Some PermissionError
        then (add t (Tree (PermissionDenied base_dir) []), ls, None)
        else (t, ls, x))"

text \<open>
  Lines 63 and 64: without a node to append to, the call makes a root labelled with
  \<open>base_dir\<close>.
\<close>

definition tree_or_root :: "path \<Rightarrow> tree option \<Rightarrow> tree" where
  "tree_or_root base_dir tree =
     (case tree of None \<Rightarrow> Tree (Root base_dir) [] | Some t \<Rightarrow> t)"

text \<open>
  \<open>build_tree\<close> is the function of lines 50 to 81 and \<open>for_entries\<close> its loop of lines 68 to
  76 over the sorted entries.  The first argument bounds the depth of the recursion: a call
  that would need a deeper one gives \<open>None\<close>, and so does a call that never stops.  The node
  that the recursive call of line 73 fills is the child just appended to \<open>tree\<close>; the model
  builds the child first and appends it as the callee leaves it, which is the same state.
\<close>

fun build_tree ::
  "nat \<Rightarrow> os \<Rightarrow> path \<Rightarrow> string set \<Rightarrow> string set \<Rightarrow> tree option \<Rightarrow> run option"
and for_entries ::
  "nat \<Rightarrow> os \<Rightarrow> path \<Rightarrow> string set \<Rightarrow> string set \<Rightarrow> string list \<Rightarrow> tree \<Rightarrow> run option"
where
  "build_tree 0 fs base_dir exclude_dirs exclude_files tree = None"
| "build_tree (Suc n) fs base_dir exclude_dirs exclude_files tree =
     (let t = tree_or_root base_dir tree in
      case listdir fs base_dir of
        Inl e \<Rightarrow> Some (except_PermissionError base_dir (t, [base_dir], Some e))
      | Inr entries \<Rightarrow>
          (case for_entries n fs base_dir exclude_dirs exclude_files (sort entries) t of
             None \<Rightarrow> None
           | Some (t', ls, x) \<Rightarrow>
               Some (except_PermissionError base_dir (t', base_dir # ls, x))))"
| "for_entries n fs base_dir exclude_dirs exclude_files [] t = Some (t, [], None)"
| "for_entries n fs base_dir exclude_dirs exclude_files (entry # rest) t =
     (let full_path = os_path_join base_dir entry in
      case isdir fs full_path of
        Inl e \<Rightarrow> Some (t, [], Some e)
      | Inr d \<Rightarrow>
          if d \<and> entry \<notin> exclude_dirs then
            (case build_tree n fs full_path exclude_dirs exclude_files
                    (Some (Tree (Directory entry) [])) of
               None \<Rightarrow> None
             | Some (sub_tree, ls, Some e) \<Rightarrow> Some (add t sub_tree, ls, Some e)
             | Some (sub_tree, ls, None) \<Rightarrow>
                 (case for_entries n fs base_dir exclude_dirs exclude_files rest
                         (add t sub_tree) of
                    None \<Rightarrow> None
                  | Some (t', ls', x) \<Rightarrow> Some (t', ls @ ls', x)))
          else
            (case isfile fs full_path of
               Inl e \<Rightarrow> Some (t, [], Some e)
             | Inr f \<Rightarrow>
                 if f \<and> entry \<notin> exclude_files
                 then for_entries n fs base_dir exclude_dirs exclude_files rest
                        (add t (Tree (File entry) []))
                 else for_entries n fs base_dir exclude_dirs exclude_files rest t))"


subsection \<open>Trees and snapshots in the statements\<close>

text \<open>
  All labels of a tree, and the entry names of a list of children: a \<open>Directory\<close> or \<open>File\<close>
  child carries the name of its entry, the other two kinds carry a path and no entry name.
\<close>

fun labels :: "tree \<Rightarrow> label set" where
  "labels (Tree l cs) = insert l (\<Union>c \<in> set cs. labels c)"

definition child_names :: "tree list \<Rightarrow> string list" where
  "child_names cs =
     concat (map (\<lambda>c. case label c of Directory e \<Rightarrow> [e] | File e \<Rightarrow> [e] | _ \<Rightarrow> []) cs)"

text \<open>
  \<open>ordered t\<close>: at every node of \<open>t\<close>, the entry names of the children ascend.
\<close>

fun ordered :: "tree \<Rightarrow> bool" where
  "ordered (Tree l cs) \<longleftrightarrow> sorted (child_names cs) \<and> (\<forall>c \<in> set cs. ordered c)"

text \<open>
  Two snapshots with the same entries in every directory, enumerated in any order.
\<close>

definition same_entries :: "os \<Rightarrow> os \<Rightarrow> bool" where
  "same_entries fs fs' \<longleftrightarrow>
     (\<forall>p. map_sum id mset (listdir fs' p) = map_sum id mset (listdir fs p)) \<and>
     isdir fs' = isdir fs \<and> isfile fs' = isfile fs"

text \<open>
  What \<open>os.listdir\<close> guarantees about the names it returns: none is empty or contains a
  slash.
\<close>

definition entry_name :: "string \<Rightarrow> bool" where
  "entry_name e \<longleftrightarrow> e \<noteq> [] \<and> CHR ''/'' \<notin> set e"

definition listdir_names :: "os \<Rightarrow> bool" where
  "listdir_names fs \<longleftrightarrow>
     (\<forall>p entries. listdir fs p = Inr entries \<longrightarrow> (\<forall>e \<in> set entries. entry_name e))"

text \<open>
  \<open>os.path.isdir\<close> and \<open>os.path.isfile\<close> as the library has them: they answer and never
  raise.
\<close>

definition answers :: "os \<Rightarrow> bool" where
  "answers fs \<longleftrightarrow> (\<forall>p. (\<exists>d. isdir fs p = Inr d) \<and> (\<exists>f. isfile fs p = Inr f))"


subsection \<open>load\_exclusions\<close>

text \<open>
  What \<open>json.load\<close> returns.  A number is kept as its literal: the loader only needs to know
  that it is a number.
\<close>

datatype json =
    JNull
  | JBool bool
  | JNumber string
  | JString string
  | JArray "json list"
  | JObject "(string \<times> json) list"

text \<open>
  \<open>config.get(key, default)\<close> on the dictionary of a JSON object; of two members with the
  same key \<open>json.load\<close> keeps the later one.
\<close>

definition dict_get :: "(string \<times> json) list \<Rightarrow> string \<Rightarrow> json \<Rightarrow> json" where
  "dict_get members key dflt =
     (case map_of (rev members) key of Some v \<Rightarrow> v | None \<Rightarrow> dflt)"

text \<open>
  \<open>set(v)\<close>: a list gives the set of its elements and raises \<open>TypeError\<close> when one of them
  is a list or a dictionary (not hashable); a string gives its characters; a dictionary its
  keys; \<open>None\<close>, a boolean and a number are not iterable.  The model keeps the strings of
  the set: \<open>build_tree\<close> only asks whether an entry name, a string, is a member.
\<close>

definition hashable :: "json \<Rightarrow> bool" where
  "hashable v = (case v of JArray _ \<Rightarrow> False | JObject _ \<Rightarrow> False | _ \<Rightarrow> True)"

definition py_set :: "json \<Rightarrow> exn + string set" where
  "py_set v =
     (case v of
        JArray xs \<Rightarrow>
          if list_all hashable xs
          then Inr (set (concat (map (\<lambda>x. case x of JString s \<Rightarrow> [s] | _ \<Rightarrow> []) xs)))
          else Inl TypeError
      | JString s \<Rightarrow> Inr (set (map (\<lambda>c. [c]) s))
      | JObject members \<Rightarrow> Inr (set (map fst members))
      | _ \<Rightarrow> Inl TypeError)"

text \<open>
  The result of the loader: the configuration files that a warning was printed for, and the
  two sets.
\<close>

type_synonym loaded = "path list \<times> string set \<times> string set"

text \<open>
  Lines 22 to 24, the body of the \<open>try\<close>.  \<open>json_load\<close> is the outcome of opening the file
  for reading as UTF-8 text and of \<open>json.load\<close> on it: the value parsed or the exception
  raised.  A value that is not a dictionary has no \<open>get\<close>.
\<close>

definition load_exclusions_body :: "(path \<Rightarrow> exn + json) \<Rightarrow> path \<Rightarrow> exn + loaded" where
  "load_exclusions_body json_load config_file =
     (case json_load config_file of
        Inl e \<Rightarrow> Inl e
      | Inr (JObject config) \<Rightarrow>
          (case py_set (dict_get config ''exclude_dirs'' (JArray [])) of
             Inl e \<Rightarrow> Inl e
           | Inr dirs \<Rightarrow>
               (case py_set (dict_get config ''exclude_files'' (JArray [])) of
                  Inl e \<Rightarrow> Inl e
                | Inr files \<Rightarrow> Inr ([], dirs, files)))
      | Inr _ \<Rightarrow> Inl AttributeError)"

text \<open>
  \<open>load_exclusions\<close>, lines 21 to 27: the handler catches \<open>FileNotFoundError\<close> and
  \<open>JSONDecodeError\<close>, prints the warning and returns two empty sets.
\<close>

definition load_exclusions :: "(path \<Rightarrow> exn + json) \<Rightarrow> path \<Rightarrow> exn + loaded" where
  "load_exclusions json_load config_file =
     (case load_exclusions_body json_load config_file of
        Inl e \<Rightarrow>
          if e = FileNotFoundError \<or> e = JSONDecodeError
          then Inr ([config_file], {}, {})
          else Inl e
      | Inr r \<Rightarrow> Inr r)"

subsection \<open>File systems for the examples\<close>

text \<open>
  A snapshot from tables: the paths that resolve to a directory, each with what listing it
  gives; the paths that resolve to a regular file; the paths that are symbolic links.
\<close>

definition table_os :: "(path \<times> (exn + string list)) list \<Rightarrow> path list \<Rightarrow> path list \<Rightarrow> os" where
  "table_os dirs files links =
     \<lparr> listdir = (\<lambda>p. case map_of dirs p of
                        Some r \<Rightarrow> r
                      | None \<Rightarrow> Inl (if p \<in> set files then NotADirectoryError
                                      else FileNotFoundError)),
       isdir = (\<lambda>p. Inr (p \<in> set (map fst dirs))),
       isfile = (\<lambda>p. Inr (p \<in> set files)),
       islink = (\<lambda>p. p \<in> set links) \<rparr>"

text \<open>
  A project with a source directory, a virtual environment and a readme.
\<close>

definition project_os :: os where
  "project_os =
     table_os
       [(''proj'', Inr [''src'', ''.venv'', ''readme.md'']),
        (''proj/src'', Inr [''a.py'']),
        (''proj/.venv'', Inr [''x.txt''])]
       [''proj/readme.md'', ''proj/src/a.py'', ''proj/.venv/x.txt'']
       []"

text \<open>
  The same project on a storage that enumerates the root in another order.
\<close>

definition project_os_reordered :: os where
  "project_os_reordered =
     table_os
       [(''proj'', Inr [''readme.md'', ''.venv'', ''src'']),
        (''proj/src'', Inr [''a.py'']),
        (''proj/.venv'', Inr [''x.txt''])]
       [''proj/readme.md'', ''proj/src/a.py'', ''proj/.venv/x.txt'']
       []"


text \<open>
  A directory \<open>gone\<close> that is removed after \<open>os.path.isdir\<close> has seen it and before it is
  listed, between two files.
\<close>

definition vanished_os :: os where
  "vanished_os =
     table_os
       [(''proj'', Inr [''a.txt'', ''gone'', ''zz.txt'']),
        (''proj/gone'', Inl FileNotFoundError)]
       [''proj/a.txt'', ''proj/zz.txt'']
       []"

text \<open>
  Three symbolic links in a project: \<open>data\<close> points to a directory outside the project that
  holds \<open>x.txt\<close>, \<open>note\<close> to a regular file, and the target of \<open>stale\<close> is missing.
\<close>

definition links_os :: os where
  "links_os =
     table_os
       [(''proj'', Inr [''data'', ''note'', ''stale'']),
        (''proj/data'', Inr [''x.txt''])]
       [''proj/note'', ''proj/data/x.txt'']
       [''proj/data'', ''proj/note'', ''proj/stale'']"



text \<open>
  A regular file named \<open>build\<close> and a directory named \<open>notes\<close>.
\<close>

definition kinds_os :: os where
  "kinds_os =
     table_os
       [(''proj'', Inr [''notes'', ''build'']),
        (''proj/notes'', Inr [''t.txt''])]
       [''proj/build'', ''proj/notes/t.txt'']
       []"

text \<open>
  Three files, with an \<open>os.path.isdir\<close> that raises \<open>PermissionError\<close> for the second.
\<close>

definition raising_os :: os where
  "raising_os =
     (table_os
        [(''proj'', Inr [''c.txt'', ''a.txt'', ''b.txt''])]
        [''proj/a.txt'', ''proj/b.txt'', ''proj/c.txt'']
        [])
     \<lparr> isdir := (\<lambda>p. if p = ''proj/b.txt'' then Inl PermissionError else Inr (p = ''proj'')) \<rparr>"

section \<open>Runs of build\_tree\<close>

text \<open>
  How a call that has stopped came to its outcome, as case analysis and as induction over
  the calls it made.
\<close>

lemma build_tree_cases [consumes 1, case_names denied failed interrupted listed]:
  assumes "build_tree n fs b ed ef tr = Some (t', ls, x)"
  obtains
    m where "n = Suc m" "listdir fs b = Inl PermissionError"
      "t' = add (tree_or_root b tr) (Tree (PermissionDenied b) [])" "ls = [b]" "x = None"
  | m a where "n = Suc m" "listdir fs b = Inl a" "a \<noteq> PermissionError"
      "t' = tree_or_root b tr" "ls = [b]" "x = Some a"
  | m entries t1 ls1 where "n = Suc m" "listdir fs b = Inr entries"
      "for_entries m fs b ed ef (sort entries) (tree_or_root b tr) = Some (t1, ls1, Some PermissionError)"
      "t' = add t1 (Tree (PermissionDenied b) [])" "ls = b # ls1" "x = None"
  | m entries ls1 where "n = Suc m" "listdir fs b = Inr entries"
      "for_entries m fs b ed ef (sort entries) (tree_or_root b tr) = Some (t', ls1, x)"
      "x \<noteq> Some PermissionError" "ls = b # ls1"
proof (cases n)
  case 0
  with assms show ?thesis by simp
next
  case (Suc m)
  show ?thesis
  proof (cases "listdir fs b")
    case (Inl a)
    with assms Suc that(1) [of m] that(2) [of m a] show ?thesis
      by (cases "a = PermissionError") (auto simp: except_PermissionError_def)
  next
    case (Inr entries)
    with assms Suc obtain t1 ls1 x1 where
      f: "for_entries m fs b ed ef (sort entries) (tree_or_root b tr) = Some (t1, ls1, x1)"
      and r: "except_PermissionError b (t1, b # ls1, x1) = (t', ls, x)"
      by (auto split: option.splits)
    show ?thesis
    proof (cases "x1 = Some PermissionError")
      case True
      with f r Suc Inr that(3) [of m entries t1 ls1] show ?thesis
        by (auto simp: except_PermissionError_def)
    next
      case False
      with f r Suc Inr that(4) [of m entries ls1] show ?thesis
        by (auto simp: except_PermissionError_def)
    qed
  qed
qed

lemma for_entries_Cons_cases [consumes 1, case_names isdir_raises subdir_raises subdir isfile_raises file_kept skipped]:
  assumes "for_entries n fs b ed ef (e # rest) t = Some (t', ls, x)"
  obtains
    a where "isdir fs (os_path_join b e) = Inl a" "t' = t" "ls = []" "x = Some a"
  | sub a where "isdir fs (os_path_join b e) = Inr True" "e \<notin> ed"
      "build_tree n fs (os_path_join b e) ed ef (Some (Tree (Directory e) [])) = Some (sub, ls, Some a)"
      "t' = add t sub" "x = Some a"
  | sub ls1 ls2 where "isdir fs (os_path_join b e) = Inr True" "e \<notin> ed"
      "build_tree n fs (os_path_join b e) ed ef (Some (Tree (Directory e) [])) = Some (sub, ls1, None)"
      "for_entries n fs b ed ef rest (add t sub) = Some (t', ls2, x)" "ls = ls1 @ ls2"
  | d a where "isdir fs (os_path_join b e) = Inr d" "\<not> (d \<and> e \<notin> ed)"
      "isfile fs (os_path_join b e) = Inl a" "t' = t" "ls = []" "x = Some a"
  | d where "isdir fs (os_path_join b e) = Inr d" "\<not> (d \<and> e \<notin> ed)"
      "isfile fs (os_path_join b e) = Inr True" "e \<notin> ef"
      "for_entries n fs b ed ef rest (add t (Tree (File e) [])) = Some (t', ls, x)"
  | d f where "isdir fs (os_path_join b e) = Inr d" "\<not> (d \<and> e \<notin> ed)"
      "isfile fs (os_path_join b e) = Inr f" "\<not> (f \<and> e \<notin> ef)"
      "for_entries n fs b ed ef rest t = Some (t', ls, x)"
proof (cases "isdir fs (os_path_join b e)")
  case (Inl a)
  with assms have "t' = t" "ls = []" "x = Some a" by simp_all
  with Inl show ?thesis by (rule that(1))
next
  case (Inr d)
  show ?thesis
  proof (cases "d \<and> e \<notin> ed")
    case True
    with Inr have dir: "isdir fs (os_path_join b e) = Inr True" "e \<notin> ed" by simp_all
    from assms dir obtain sub ls1 x1 where
      bt: "build_tree n fs (os_path_join b e) ed ef (Some (Tree (Directory e) [])) = Some (sub, ls1, x1)"
      by (cases "build_tree n fs (os_path_join b e) ed ef (Some (Tree (Directory e) []))") auto
    show ?thesis
    proof (cases x1)
      case None
      with assms dir bt obtain ls2 where
        "for_entries n fs b ed ef rest (add t sub) = Some (t', ls2, x)" "ls = ls1 @ ls2"
        by (cases "for_entries n fs b ed ef rest (add t sub)") auto
      with dir bt None show ?thesis by (auto intro: that(3))
    next
      case (Some a)
      with assms dir bt have "t' = add t sub" "ls = ls1" "x = Some a" by simp_all
      with dir bt Some show ?thesis by (auto intro: that(2))
    qed
  next
    case False
    show ?thesis
    proof (cases "isfile fs (os_path_join b e)")
      case (Inl a)
      with assms Inr False have "t' = t" "ls = []" "x = Some a" by auto
      with Inr False Inl show ?thesis by (auto intro: that(4))
    next
      case f: (Inr f)
      show ?thesis
      proof (cases "f \<and> e \<notin> ef")
        case True
        with assms Inr False f
        have "for_entries n fs b ed ef rest (add t (Tree (File e) [])) = Some (t', ls, x)"
          by auto
        with Inr False f True show ?thesis by (auto intro: that(5))
      next
        case nf: False
        with assms Inr False f
        have "for_entries n fs b ed ef rest t = Some (t', ls, x)"
          by auto
        with Inr False f nf show ?thesis by (rule that(6))
      qed
    qed
  qed
qed

lemma run_induct_aux:
  assumes denied: "\<And>n b tr. listdir fs b = Inl PermissionError \<Longrightarrow>
      P (Suc n) b tr (add (tree_or_root b tr) (Tree (PermissionDenied b) [])) [b] None"
    and failed: "\<And>n b tr a. listdir fs b = Inl a \<Longrightarrow> a \<noteq> PermissionError \<Longrightarrow>
      P (Suc n) b tr (tree_or_root b tr) [b] (Some a)"
    and interrupted: "\<And>n b tr entries t1 ls1. listdir fs b = Inr entries \<Longrightarrow>
      for_entries n fs b ed ef (sort entries) (tree_or_root b tr) = Some (t1, ls1, Some PermissionError) \<Longrightarrow>
      Q n b (sort entries) (tree_or_root b tr) t1 ls1 (Some PermissionError) \<Longrightarrow>
      P (Suc n) b tr (add t1 (Tree (PermissionDenied b) [])) (b # ls1) None"
    and listed: "\<And>n b tr entries t1 ls1 x. listdir fs b = Inr entries \<Longrightarrow>
      for_entries n fs b ed ef (sort entries) (tree_or_root b tr) = Some (t1, ls1, x) \<Longrightarrow>
      x \<noteq> Some PermissionError \<Longrightarrow>
      Q n b (sort entries) (tree_or_root b tr) t1 ls1 x \<Longrightarrow>
      P (Suc n) b tr t1 (b # ls1) x"
    and nil: "\<And>n b t. Q n b [] t t [] None"
    and isdir_raises: "\<And>n b e rest t a. isdir fs (os_path_join b e) = Inl a \<Longrightarrow>
      Q n b (e # rest) t t [] (Some a)"
    and subdir_raises: "\<And>n b e rest t sub ls a.
      isdir fs (os_path_join b e) = Inr True \<Longrightarrow> e \<notin> ed \<Longrightarrow>
      build_tree n fs (os_path_join b e) ed ef (Some (Tree (Directory e) [])) = Some (sub, ls, Some a) \<Longrightarrow>
      P n (os_path_join b e) (Some (Tree (Directory e) [])) sub ls (Some a) \<Longrightarrow>
      Q n b (e # rest) t (add t sub) ls (Some a)"
    and subdir: "\<And>n b e rest t sub ls1 t' ls2 x.
      isdir fs (os_path_join b e) = Inr True \<Longrightarrow> e \<notin> ed \<Longrightarrow>
      build_tree n fs (os_path_join b e) ed ef (Some (Tree (Directory e) [])) = Some (sub, ls1, None) \<Longrightarrow>
      P n (os_path_join b e) (Some (Tree (Directory e) [])) sub ls1 None \<Longrightarrow>
      for_entries n fs b ed ef rest (add t sub) = Some (t', ls2, x) \<Longrightarrow>
      Q n b rest (add t sub) t' ls2 x \<Longrightarrow>
      Q n b (e # rest) t t' (ls1 @ ls2) x"
    and isfile_raises: "\<And>n b e rest t d a.
      isdir fs (os_path_join b e) = Inr d \<Longrightarrow> \<not> (d \<and> e \<notin> ed) \<Longrightarrow>
      isfile fs (os_path_join b e) = Inl a \<Longrightarrow>
      Q n b (e # rest) t t [] (Some a)"
    and file_kept: "\<And>n b e rest t d t' ls x.
      isdir fs (os_path_join b e) = Inr d \<Longrightarrow> \<not> (d \<and> e \<notin> ed) \<Longrightarrow>
      isfile fs (os_path_join b e) = Inr True \<Longrightarrow> e \<notin> ef \<Longrightarrow>
      for_entries n fs b ed ef rest (add t (Tree (File e) [])) = Some (t', ls, x) \<Longrightarrow>
      Q n b rest (add t (Tree (File e) [])) t' ls x \<Longrightarrow>
      Q n b (e # rest) t t' ls x"
    and skipped: "\<And>n b e rest t d f t' ls x.
      isdir fs (os_path_join b e) = Inr d \<Longrightarrow> \<not> (d \<and> e \<notin> ed) \<Longrightarrow>
      isfile fs (os_path_join b e) = Inr f \<Longrightarrow> \<not> (f \<and> e \<notin> ef) \<Longrightarrow>
      for_entries n fs b ed ef rest t = Some (t', ls, x) \<Longrightarrow>
      Q n b rest t t' ls x \<Longrightarrow>
      Q n b (e # rest) t t' ls x"
  shows "(\<forall>b tr t' ls x. build_tree n fs b ed ef tr = Some (t', ls, x) \<longrightarrow> P n b tr t' ls x) \<and>
         (\<forall>b es t t' ls x. for_entries n fs b ed ef es t = Some (t', ls, x) \<longrightarrow> Q n b es t t' ls x)"
proof -
  have loop: "for_entries n fs b ed ef es t = Some (t', ls, x) \<Longrightarrow> Q n b es t t' ls x"
    if PB: "\<And>b tr t' ls x. build_tree n fs b ed ef tr = Some (t', ls, x) \<Longrightarrow> P n b tr t' ls x"
    for n b es t t' ls x
  proof (induction es arbitrary: t t' ls x)
    case Nil
    then show ?case by (simp add: nil)
  next
    case (Cons e rest)
    from Cons.prems show ?case
    proof (cases rule: for_entries_Cons_cases)
      case (isdir_raises a)
      then show ?thesis by (simp add: assms(6))
    next
      case (subdir_raises sub a)
      with PB show ?thesis by (simp add: assms(7))
    next
      case (subdir sub ls1 ls2)
      from subdir(1,2,3) PB [OF subdir(3)] subdir(4) Cons.IH [OF subdir(4)]
      have "Q n b (e # rest) t t' (ls1 @ ls2) x" by (rule assms(8))
      with subdir(5) show ?thesis by simp
    next
      case (isfile_raises d a)
      from isfile_raises(1,2,3) have "Q n b (e # rest) t t [] (Some a)" by (rule assms(9))
      with isfile_raises show ?thesis by simp
    next
      case (file_kept d)
      from file_kept(1,2,3,4,5) Cons.IH [OF file_kept(5)] show ?thesis by (rule assms(10))
    next
      case (skipped d f)
      from skipped(1,2,3,4,5) Cons.IH [OF skipped(5)] show ?thesis by (rule assms(11))
    qed
  qed
  have body: "P (Suc n) b tr t' ls x"
    if bt: "build_tree (Suc n) fs b ed ef tr = Some (t', ls, x)"
      and QL: "\<And>b es t t' ls x. for_entries n fs b ed ef es t = Some (t', ls, x) \<Longrightarrow> Q n b es t t' ls x"
    for n b tr t' ls x
    using bt
  proof (cases rule: build_tree_cases)
    case (denied m)
    then show ?thesis by (simp add: assms(1))
  next
    case (failed m a)
    then show ?thesis by (simp add: assms(2))
  next
    case (interrupted m entries t1 ls1)
    from interrupted(1) have m: "m = n" by simp
    from interrupted(3) have f: "for_entries n fs b ed ef (sort entries) (tree_or_root b tr) = Some (t1, ls1, Some PermissionError)"
      unfolding m .
    from interrupted(2) f QL [OF f]
    have "P (Suc n) b tr (add t1 (Tree (PermissionDenied b) [])) (b # ls1) None" by (rule assms(3))
    with interrupted show ?thesis by simp
  next
    case (listed m entries ls1)
    from listed(1) have m: "m = n" by simp
    from listed(3) have f: "for_entries n fs b ed ef (sort entries) (tree_or_root b tr) = Some (t', ls1, x)"
      unfolding m .
    from listed(2) f listed(4) QL [OF f]
    have "P (Suc n) b tr t' (b # ls1) x" by (rule assms(4))
    with listed show ?thesis by simp
  qed
  show ?thesis
  proof (induction n)
    case 0
    have "\<And>b tr t' ls x. build_tree 0 fs b ed ef tr = Some (t', ls, x) \<Longrightarrow> P 0 b tr t' ls x"
      by simp
    with loop [of 0] show ?case by simp
  next
    case (Suc n)
    have PB: "P (Suc n) b tr t' ls x"
      if "build_tree (Suc n) fs b ed ef tr = Some (t', ls, x)" for b tr t' ls x
      using that
    proof (rule body)
      fix b es t t' ls x
      assume "for_entries n fs b ed ef es t = Some (t', ls, x)"
      with Suc show "Q n b es t t' ls x" by blast
    qed
    have "Q (Suc n) b es t t' ls x"
      if "for_entries (Suc n) fs b ed ef es t = Some (t', ls, x)" for b es t t' ls x
      using PB that by (rule loop)
    with PB show ?case by blast
  qed
qed

lemma build_tree_run_induct [consumes 1, case_names denied failed interrupted listed nil
    isdir_raises subdir_raises subdir isfile_raises file_kept skipped]:
  assumes "build_tree n fs b ed ef tr = Some (t', ls, x)"
    and "\<And>n b tr. listdir fs b = Inl PermissionError \<Longrightarrow>
      P (Suc n) b tr (add (tree_or_root b tr) (Tree (PermissionDenied b) [])) [b] None"
    and "\<And>n b tr a. listdir fs b = Inl a \<Longrightarrow> a \<noteq> PermissionError \<Longrightarrow>
      P (Suc n) b tr (tree_or_root b tr) [b] (Some a)"
    and "\<And>n b tr entries t1 ls1. listdir fs b = Inr entries \<Longrightarrow>
      for_entries n fs b ed ef (sort entries) (tree_or_root b tr) = Some (t1, ls1, Some PermissionError) \<Longrightarrow>
      Q n b (sort entries) (tree_or_root b tr) t1 ls1 (Some PermissionError) \<Longrightarrow>
      P (Suc n) b tr (add t1 (Tree (PermissionDenied b) [])) (b # ls1) None"
    and "\<And>n b tr entries t1 ls1 x. listdir fs b = Inr entries \<Longrightarrow>
      for_entries n fs b ed ef (sort entries) (tree_or_root b tr) = Some (t1, ls1, x) \<Longrightarrow>
      x \<noteq> Some PermissionError \<Longrightarrow>
      Q n b (sort entries) (tree_or_root b tr) t1 ls1 x \<Longrightarrow>
      P (Suc n) b tr t1 (b # ls1) x"
    and "\<And>n b t. Q n b [] t t [] None"
    and "\<And>n b e rest t a. isdir fs (os_path_join b e) = Inl a \<Longrightarrow>
      Q n b (e # rest) t t [] (Some a)"
    and "\<And>n b e rest t sub ls a.
      isdir fs (os_path_join b e) = Inr True \<Longrightarrow> e \<notin> ed \<Longrightarrow>
      build_tree n fs (os_path_join b e) ed ef (Some (Tree (Directory e) [])) = Some (sub, ls, Some a) \<Longrightarrow>
      P n (os_path_join b e) (Some (Tree (Directory e) [])) sub ls (Some a) \<Longrightarrow>
      Q n b (e # rest) t (add t sub) ls (Some a)"
    and "\<And>n b e rest t sub ls1 t' ls2 x.
      isdir fs (os_path_join b e) = Inr True \<Longrightarrow> e \<notin> ed \<Longrightarrow>
      build_tree n fs (os_path_join b e) ed ef (Some (Tree (Directory e) [])) = Some (sub, ls1, None) \<Longrightarrow>
      P n (os_path_join b e) (Some (Tree (Directory e) [])) sub ls1 None \<Longrightarrow>
      for_entries n fs b ed ef rest (add t sub) = Some (t', ls2, x) \<Longrightarrow>
      Q n b rest (add t sub) t' ls2 x \<Longrightarrow>
      Q n b (e # rest) t t' (ls1 @ ls2) x"
    and "\<And>n b e rest t d a.
      isdir fs (os_path_join b e) = Inr d \<Longrightarrow> \<not> (d \<and> e \<notin> ed) \<Longrightarrow>
      isfile fs (os_path_join b e) = Inl a \<Longrightarrow>
      Q n b (e # rest) t t [] (Some a)"
    and "\<And>n b e rest t d t' ls x.
      isdir fs (os_path_join b e) = Inr d \<Longrightarrow> \<not> (d \<and> e \<notin> ed) \<Longrightarrow>
      isfile fs (os_path_join b e) = Inr True \<Longrightarrow> e \<notin> ef \<Longrightarrow>
      for_entries n fs b ed ef rest (add t (Tree (File e) [])) = Some (t', ls, x) \<Longrightarrow>
      Q n b rest (add t (Tree (File e) [])) t' ls x \<Longrightarrow>
      Q n b (e # rest) t t' ls x"
    and "\<And>n b e rest t d f t' ls x.
      isdir fs (os_path_join b e) = Inr d \<Longrightarrow> \<not> (d \<and> e \<notin> ed) \<Longrightarrow>
      isfile fs (os_path_join b e) = Inr f \<Longrightarrow> \<not> (f \<and> e \<notin> ef) \<Longrightarrow>
      for_entries n fs b ed ef rest t = Some (t', ls, x) \<Longrightarrow>
      Q n b rest t t' ls x \<Longrightarrow>
      Q n b (e # rest) t t' ls x"
  shows "P n b tr t' ls x"
proof -
  have "(\<forall>b tr t' ls x. build_tree n fs b ed ef tr = Some (t', ls, x) \<longrightarrow> P n b tr t' ls x) \<and>
         (\<forall>b es t t' ls x. for_entries n fs b ed ef es t = Some (t', ls, x) \<longrightarrow> Q n b es t t' ls x)"
    by (rule run_induct_aux) (fact assms(2-12))+
  with assms(1) show ?thesis by blast
qed

lemma for_entries_run_induct [consumes 1, case_names denied failed interrupted listed nil
    isdir_raises subdir_raises subdir isfile_raises file_kept skipped]:
  assumes "for_entries n fs b ed ef es t = Some (t', ls, x)"
    and "\<And>n b tr. listdir fs b = Inl PermissionError \<Longrightarrow>
      P (Suc n) b tr (add (tree_or_root b tr) (Tree (PermissionDenied b) [])) [b] None"
    and "\<And>n b tr a. listdir fs b = Inl a \<Longrightarrow> a \<noteq> PermissionError \<Longrightarrow>
      P (Suc n) b tr (tree_or_root b tr) [b] (Some a)"
    and "\<And>n b tr entries t1 ls1. listdir fs b = Inr entries \<Longrightarrow>
      for_entries n fs b ed ef (sort entries) (tree_or_root b tr) = Some (t1, ls1, Some PermissionError) \<Longrightarrow>
      Q n b (sort entries) (tree_or_root b tr) t1 ls1 (Some PermissionError) \<Longrightarrow>
      P (Suc n) b tr (add t1 (Tree (PermissionDenied b) [])) (b # ls1) None"
    and "\<And>n b tr entries t1 ls1 x. listdir fs b = Inr entries \<Longrightarrow>
      for_entries n fs b ed ef (sort entries) (tree_or_root b tr) = Some (t1, ls1, x) \<Longrightarrow>
      x \<noteq> Some PermissionError \<Longrightarrow>
      Q n b (sort entries) (tree_or_root b tr) t1 ls1 x \<Longrightarrow>
      P (Suc n) b tr t1 (b # ls1) x"
    and "\<And>n b t. Q n b [] t t [] None"
    and "\<And>n b e rest t a. isdir fs (os_path_join b e) = Inl a \<Longrightarrow>
      Q n b (e # rest) t t [] (Some a)"
    and "\<And>n b e rest t sub ls a.
      isdir fs (os_path_join b e) = Inr True \<Longrightarrow> e \<notin> ed \<Longrightarrow>
      build_tree n fs (os_path_join b e) ed ef (Some (Tree (Directory e) [])) = Some (sub, ls, Some a) \<Longrightarrow>
      P n (os_path_join b e) (Some (Tree (Directory e) [])) sub ls (Some a) \<Longrightarrow>
      Q n b (e # rest) t (add t sub) ls (Some a)"
    and "\<And>n b e rest t sub ls1 t' ls2 x.
      isdir fs (os_path_join b e) = Inr True \<Longrightarrow> e \<notin> ed \<Longrightarrow>
      build_tree n fs (os_path_join b e) ed ef (Some (Tree (Directory e) [])) = Some (sub, ls1, None) \<Longrightarrow>
      P n (os_path_join b e) (Some (Tree (Directory e) [])) sub ls1 None \<Longrightarrow>
      for_entries n fs b ed ef rest (add t sub) = Some (t', ls2, x) \<Longrightarrow>
      Q n b rest (add t sub) t' ls2 x \<Longrightarrow>
      Q n b (e # rest) t t' (ls1 @ ls2) x"
    and "\<And>n b e rest t d a.
      isdir fs (os_path_join b e) = Inr d \<Longrightarrow> \<not> (d \<and> e \<notin> ed) \<Longrightarrow>
      isfile fs (os_path_join b e) = Inl a \<Longrightarrow>
      Q n b (e # rest) t t [] (Some a)"
    and "\<And>n b e rest t d t' ls x.
      isdir fs (os_path_join b e) = Inr d \<Longrightarrow> \<not> (d \<and> e \<notin> ed) \<Longrightarrow>
      isfile fs (os_path_join b e) = Inr True \<Longrightarrow> e \<notin> ef \<Longrightarrow>
      for_entries n fs b ed ef rest (add t (Tree (File e) [])) = Some (t', ls, x) \<Longrightarrow>
      Q n b rest (add t (Tree (File e) [])) t' ls x \<Longrightarrow>
      Q n b (e # rest) t t' ls x"
    and "\<And>n b e rest t d f t' ls x.
      isdir fs (os_path_join b e) = Inr d \<Longrightarrow> \<not> (d \<and> e \<notin> ed) \<Longrightarrow>
      isfile fs (os_path_join b e) = Inr f \<Longrightarrow> \<not> (f \<and> e \<notin> ef) \<Longrightarrow>
      for_entries n fs b ed ef rest t = Some (t', ls, x) \<Longrightarrow>
      Q n b rest t t' ls x \<Longrightarrow>
      Q n b (e # rest) t t' ls x"
  shows "Q n b es t t' ls x"
proof -
  have "(\<forall>b tr t' ls x. build_tree n fs b ed ef tr = Some (t', ls, x) \<longrightarrow> P n b tr t' ls x) \<and>
         (\<forall>b es t t' ls x. for_entries n fs b ed ef es t = Some (t', ls, x) \<longrightarrow> Q n b es t t' ls x)"
    by (rule run_induct_aux) (fact assms(2-12))+
  with assms(1) show ?thesis by blast
qed



text \<open>
  The loop over a list of entries is the loop over its first part followed, when that has
  not raised, by the loop over the rest.
\<close>

lemma for_entries_append:
  "for_entries n fs b ed ef (es @ es') t =
     (case for_entries n fs b ed ef es t of
        None \<Rightarrow> None
      | Some (t1, ls1, Some a) \<Rightarrow> Some (t1, ls1, Some a)
      | Some (t1, ls1, None) \<Rightarrow>
          (case for_entries n fs b ed ef es' t1 of
             None \<Rightarrow> None
           | Some (t2, ls2, x) \<Rightarrow> Some (t2, ls1 @ ls2, x)))"
proof (induction es arbitrary: t)
  case Nil
  show ?case by (simp split: option.splits)
next
  case (Cons e es)
  show ?case
    by (simp add: Cons.IH Let_def split: sum.splits option.splits prod.splits)
qed

text \<open>
  The outcome depends on the snapshot only through the sorted listings and the two
  classifications.
\<close>

lemma for_entries_cong_os:
  assumes d: "isdir fs' = isdir fs" and f: "isfile fs' = isfile fs"
    and bt: "\<And>b tr. build_tree n fs' b ed ef tr = build_tree n fs b ed ef tr"
  shows "for_entries n fs' b ed ef es t = for_entries n fs b ed ef es t"
proof (induction es arbitrary: t)
  case Nil
  show ?case by simp
next
  case (Cons e es)
  show ?case
    by (simp add: d f bt Cons.IH Let_def
        cong: sum.case_cong option.case_cong prod.case_cong if_cong)
qed

lemma build_tree_cong_os:
  assumes l: "\<And>p. map_sum id sort (listdir fs' p) = map_sum id sort (listdir fs p)"
    and d: "isdir fs' = isdir fs" and f: "isfile fs' = isfile fs"
  shows "build_tree n fs' b ed ef tr = build_tree n fs b ed ef tr"
proof (induction n arbitrary: b tr)
  case 0
  show ?case by simp
next
  case (Suc n)
  have loop: "for_entries n fs' b ed ef es t = for_entries n fs b ed ef es t" for b es t
    using d f Suc.IH by (rule for_entries_cong_os)
  show ?case
  proof (cases "listdir fs b")
    case (Inl a)
    with l [of b] have "listdir fs' b = Inl a" by (cases "listdir fs' b") auto
    with Inl show ?thesis by simp
  next
    case (Inr es)
    with l [of b] obtain es' where "listdir fs' b = Inr es'" "sort es' = sort es"
      by (cases "listdir fs' b") auto
    with Inr show ?thesis by (simp add: loop)
  qed
qed

text \<open>
  A call keeps the label of its node and only appends children; it lists its own directory
  first, and \<open>PermissionError\<close> never leaves it.
\<close>

lemma labels_add [simp]: "labels (add t c) = labels t \<union> labels c"
  by (cases t) (auto simp: add_def)

lemma labels_tree_or_root_None [simp]: "labels (tree_or_root b None) = {Root b}"
  by (simp add: tree_or_root_def)

lemma label_add [simp]: "label (add t c) = label t"
  by (simp add: add_def)

lemma children_add [simp]: "children (add t c) = children t @ [c]"
  by (simp add: add_def)

lemma build_tree_extends:
  assumes "build_tree n fs b ed ef tr = Some (t', ls, x)"
  shows "label t' = label (tree_or_root b tr) \<and>
         (\<exists>new. children t' = children (tree_or_root b tr) @ new)"
  using assms
  by (induction rule: build_tree_run_induct
      [where Q = "\<lambda>n b es t t' ls x. label t' = label t \<and> (\<exists>new. children t' = children t @ new)"])
    auto

lemma for_entries_extends:
  assumes "for_entries n fs b ed ef es t = Some (t', ls, x)"
  shows "label t' = label t \<and> (\<exists>new. children t' = children t @ new)"
  using assms
  by (induction rule: for_entries_run_induct
      [where P = "\<lambda>n b tr t' ls x. label t' = label (tree_or_root b tr) \<and>
         (\<exists>new. children t' = children (tree_or_root b tr) @ new)"])
    auto

lemma build_tree_not_PermissionError:
  assumes "build_tree n fs b ed ef tr = Some (t', ls, x)"
  shows "x \<noteq> Some PermissionError"
  using assms by (cases rule: build_tree_cases) auto

lemma build_tree_lists_base:
  assumes "build_tree n fs b ed ef tr = Some (t', ls, x)"
  shows "b \<in> set ls"
  using assms by (cases rule: build_tree_cases) auto

lemma answers_not_Inl:
  assumes "answers fs"
  shows "isdir fs p \<noteq> Inl a" and "isfile fs p \<noteq> Inl a"
proof -
  from assms obtain d f where "isdir fs p = Inr d" "isfile fs p = Inr f"
    unfolding answers_def by blast
  then show "isdir fs p \<noteq> Inl a" and "isfile fs p \<noteq> Inl a" by simp_all
qed

text \<open>
  The project of the examples, with the virtual environment excluded.
\<close>

lemma project_os_run:
  "build_tree (Suc (Suc (Suc k))) project_os ''proj'' {''.venv''} {} None =
     Some (Tree (Root ''proj'')
             [Tree (File ''readme.md'') [],
              Tree (Directory ''src'') [Tree (File ''a.py'') []]],
           [''proj'', ''proj/src''], None)"
  by (simp add: project_os_def table_os_def os_path_join_def add_def tree_or_root_def
      except_PermissionError_def)

section \<open>Excluded directories\<close>

text \<open>
  Joining a directory path and an entry name gives a longer path whose bare name is the
  entry name.
\<close>

lemma basename_join:
  assumes "entry_name e"
  shows "basename (os_path_join b e) = e"
proof -
  from assms have e: "e \<noteq> []" "CHR ''/'' \<notin> set e" by (simp_all add: entry_name_def)
  then have h: "hd e \<noteq> CHR ''/''" by (cases e) auto
  have all: "takeWhile (\<lambda>c. c \<noteq> CHR ''/'') (rev e @ ys) = rev e @ takeWhile (\<lambda>c. c \<noteq> CHR ''/'') ys" for ys
    using e(2) by (intro takeWhile_append2) auto
  have tw: "takeWhile (\<lambda>c. c \<noteq> CHR ''/'') (rev e) = rev e"
    using all [of "[]"] by simp
  show ?thesis
  proof (cases "b = []")
    case True
    with e h show ?thesis by (simp add: basename_def os_path_join_def tw)
  next
    case False
    show ?thesis
    proof (cases "last b = CHR ''/''")
      case True
      with False obtain bs where "b = bs @ [CHR ''/'']"
        by (metis append_butlast_last_id)
      with e h show ?thesis
        by (simp add: basename_def os_path_join_def all)
    next
      case nl: False
      with False e h show ?thesis
        by (simp add: basename_def os_path_join_def all)
    qed
  qed
qed

lemma length_join:
  assumes "entry_name e"
  shows "length b < length (os_path_join b e)"
proof -
  from assms have e: "e \<noteq> []" "CHR ''/'' \<notin> set e" by (simp_all add: entry_name_def)
  then have h: "hd e \<noteq> CHR ''/''" by (cases e) auto
  with e show ?thesis by (simp add: os_path_join_def)
qed

text \<open>
  Every label in the tree was there before the call, or is a \<open>Directory\<close> whose name is
  not an excluded directory name, a \<open>File\<close> whose name is not an excluded file name, or a
  \<open>PermissionDenied\<close> leaf.  Every path listed is the root of the call or a longer path
  whose bare name is not an excluded directory name.
\<close>

lemma kept_labels_aux:
  assumes "build_tree n fs b ed ef tr = Some (t', ls, x)"
    and "\<And>e. e \<notin> ed \<Longrightarrow> Directory e \<in> K"
    and "\<And>e. e \<notin> ef \<Longrightarrow> File e \<in> K"
    and "\<And>p. PermissionDenied p \<in> K"
  shows "labels t' \<subseteq> labels (tree_or_root b tr) \<union> K"
  using assms(1)
proof (induction rule: build_tree_run_induct
      [where Q = "\<lambda>n b es t t' ls x. labels t' \<subseteq> labels t \<union> K"])
  case (subdir n b e rest t sub ls1 t' ls2 x)
  from subdir have "Directory e \<in> K" by (auto intro: assms(2))
  with subdir show ?case by (auto simp: tree_or_root_def)
next
  case (subdir_raises n b e rest t sub ls a)
  from subdir_raises have "Directory e \<in> K" by (auto intro: assms(2))
  with subdir_raises show ?case by (auto simp: tree_or_root_def)
next
  case (file_kept n b e rest t d t' ls x)
  from file_kept have "File e \<in> K" by (auto intro: assms(3))
  with file_kept show ?case by auto
qed (use assms(4) in auto)

lemma listed_paths_aux:
  assumes "build_tree n fs b ed ef tr = Some (t', ls, x)"
  shows "listdir_names fs \<longrightarrow>
         (\<forall>p \<in> set ls. p = b \<or> (basename p \<notin> ed \<and> length b < length p))"
  using assms
proof (induction rule: build_tree_run_induct
      [where Q = "\<lambda>n b es t t' ls x. listdir_names fs \<and> (\<forall>e \<in> set es. entry_name e) \<longrightarrow>
         (\<forall>p \<in> set ls. basename p \<notin> ed \<and> length b < length p)"])
  case (interrupted n b tr entries t1 ls1)
  then show ?case by (auto simp: listdir_names_def)
next
  case (listed n b tr entries t1 ls1 x)
  then show ?case by (auto simp: listdir_names_def)
next
  case (subdir_raises n b e rest t sub ls a)
  then show ?case
    using basename_join [of e b] length_join [of e b] by fastforce
next
  case (subdir n b e rest t sub ls1 t' ls2 x)
  then show ?case
    using basename_join [of e b] length_join [of e b] by fastforce
qed auto

lemma project_os_names: "listdir_names project_os"
  by (auto simp: listdir_names_def project_os_def table_os_def entry_name_def split: if_splits)

text \<open>
  C1.  Let \<open>build_tree\<close>, started on \<open>base\<close> without a node, stop with the tree \<open>t\<close>, having
  listed the paths \<open>ls\<close>.  If a directory \<open>q\<close> that it listed has an entry \<open>d\<close> whose name is
  in \<open>exclude_dirs\<close>, then no node of \<open>t\<close> is a directory node named \<open>d\<close>, and the path of
  that entry is not among the listed ones: the call never descends into it, so nothing
  below it is visited.  (\<open>listdir_names\<close> is what \<open>os.listdir\<close> guarantees: entry names
  are not empty and contain no slash.)
\<close>

theorem excluded_directories_are_pruned:
  assumes "listdir_names fs"
    and "build_tree n fs base ed ef None = Some (t, ls, x)"
    and "q \<in> set ls" and "listdir fs q = Inr entries" and "d \<in> set entries" and "d \<in> ed"
  shows "Directory d \<notin> labels t \<and> os_path_join q d \<notin> set ls"
proof
  from assms(6) have "labels t \<subseteq> labels (tree_or_root base None) \<union> - {Directory d}"
    by (intro kept_labels_aux [OF assms(2)]) auto
  then show "Directory d \<notin> labels t" by auto
next
  from assms(1,4,5) have d: "entry_name d" by (auto simp: listdir_names_def)
  from listed_paths_aux [OF assms(2)] assms(1)
  have *: "\<forall>p \<in> set ls. p = base \<or> (basename p \<notin> ed \<and> length base < length p)" by blast
  show "os_path_join q d \<notin> set ls"
  proof
    assume "os_path_join q d \<in> set ls"
    with * basename_join [OF d, of q] assms(6) have "os_path_join q d = base" by auto
    with length_join [OF d, of q] have "length q < length base" by simp
    with * assms(3) show False by auto
  qed
qed

theorem excluded_directories_are_pruned_witness:
  "listdir_names project_os \<and>
   build_tree 3 project_os ''proj'' {''.venv''} {} None =
     Some (Tree (Root ''proj'')
             [Tree (File ''readme.md'') [],
              Tree (Directory ''src'') [Tree (File ''a.py'') []]],
           [''proj'', ''proj/src''], None) \<and>
   listdir project_os ''proj'' = Inr [''src'', ''.venv'', ''readme.md''] \<and>
   Directory ''.venv'' \<notin>
     labels (Tree (Root ''proj'')
               [Tree (File ''readme.md'') [],
                Tree (Directory ''src'') [Tree (File ''a.py'') []]]) \<and>
   os_path_join ''proj'' ''.venv'' = ''proj/.venv'' \<and>
   ''proj/.venv'' \<notin> set [''proj'', ''proj/src'']"
proof -
  have r: "build_tree 3 project_os ''proj'' {''.venv''} {} None =
     Some (Tree (Root ''proj'')
             [Tree (File ''readme.md'') [],
              Tree (Directory ''src'') [Tree (File ''a.py'') []]],
           [''proj'', ''proj/src''], None)"
    using project_os_run [of 0] by (simp add: numeral_3_eq_3)
  have q: "''proj'' \<in> set [''proj'', ''proj/src'']" by simp
  have l: "listdir project_os ''proj'' = Inr [''src'', ''.venv'', ''readme.md'']"
    by (simp add: project_os_def table_os_def)
  have d: "''.venv'' \<in> set [''src'', ''.venv'', ''readme.md'']" by simp
  have x: "''.venv'' \<in> {''.venv''}" by simp
  have j: "os_path_join ''proj'' ''.venv'' = ''proj/.venv''" by (simp add: os_path_join_def)
  from excluded_directories_are_pruned [OF project_os_names r q l d x] project_os_names r l j
  show ?thesis by simp
qed

section \<open>A directory that may not be listed\<close>




section \<open>The order of the children\<close>

lemma child_names_append [simp]: "child_names (cs @ cs') = child_names cs @ child_names cs'"
  by (simp add: child_names_def)

lemma child_names_Nil [simp]: "child_names [] = []"
  by (simp add: child_names_def)

lemma child_names_single:
  "child_names [c] = (case label c of Directory e \<Rightarrow> [e] | File e \<Rightarrow> [e] | _ \<Rightarrow> [])"
  by (simp add: child_names_def)

lemma ordered_iff:
  "ordered t \<longleftrightarrow> sorted (child_names (children t)) \<and> (\<forall>c \<in> set (children t). ordered c)"
  by (cases t) simp

lemma ordered_leaf: "children t = [] \<Longrightarrow> ordered t"
  by (cases t) simp

lemma ordered_add:
  assumes "ordered t" and "ordered c" and "sorted (child_names (children t) @ child_names [c])"
  shows "ordered (add t c)"
  using assms by (cases t) (simp add: add_def)

lemma ordered_add_leaf:
  assumes "ordered t"
  shows "ordered (add t (Tree (PermissionDenied p) []))"
  using assms by (intro ordered_add) (simp_all add: child_names_single ordered_iff [of t])

lemma sorted_drop_middle:
  "sorted (xs @ e # ys) \<Longrightarrow> sorted (xs @ ys)"
  by (auto simp: sorted_append)

lemma sorted_take_middle:
  "sorted (xs @ e # ys) \<Longrightarrow> sorted (xs @ [e])"
  by (auto simp: sorted_append)

lemma ordered_aux:
  assumes "build_tree n fs b ed ef tr = Some (t', ls, x)"
  shows "children (tree_or_root b tr) = [] \<longrightarrow> ordered t'"
  using assms
proof (induction rule: build_tree_run_induct
      [where Q = "\<lambda>n b es t t' ls x.
         ordered t \<and> sorted (child_names (children t) @ es) \<longrightarrow> ordered t'"])
  case (denied n b tr)
  show ?case by (simp add: ordered_add_leaf ordered_leaf)
next
  case (failed n b tr a)
  show ?case by (simp add: ordered_leaf)
next
  case (interrupted n b tr entries t1 ls1)
  then show ?case by (simp add: ordered_add_leaf ordered_leaf)
next
  case (listed n b tr entries t1 ls1 x)
  then show ?case by (simp add: ordered_leaf)
next
  case (subdir_raises n b e rest t sub ls a)
  from build_tree_extends [OF subdir_raises(3)] have l: "label sub = Directory e"
    by (simp add: tree_or_root_def)
  from subdir_raises have s: "ordered sub" by (simp add: tree_or_root_def)
  show ?case
  proof
    assume a: "ordered t \<and> sorted (child_names (children t) @ e # rest)"
    then have "sorted (child_names (children t) @ [e])" by (blast intro: sorted_take_middle)
    with a s l show "ordered (add t sub)"
      by (intro ordered_add) (simp_all add: child_names_single)
  qed
next
  case (subdir n b e rest t sub ls1 t' ls2 x)
  from build_tree_extends [OF subdir(3)] have l: "label sub = Directory e"
    by (simp add: tree_or_root_def)
  from subdir have s: "ordered sub" by (simp add: tree_or_root_def)
  show ?case
  proof
    assume a: "ordered t \<and> sorted (child_names (children t) @ e # rest)"
    then have "sorted (child_names (children t) @ [e])" by (blast intro: sorted_take_middle)
    with a s l have "ordered (add t sub)"
      by (intro ordered_add) (simp_all add: child_names_single)
    moreover from a l have "sorted (child_names (children (add t sub)) @ rest)"
      by (simp add: child_names_single)
    ultimately show "ordered t'" using subdir by blast
  qed
next
  case (file_kept n b e rest t d t' ls x)
  show ?case
  proof
    assume a: "ordered t \<and> sorted (child_names (children t) @ e # rest)"
    then have "sorted (child_names (children t) @ [e])" by (blast intro: sorted_take_middle)
    with a have "ordered (add t (Tree (File e) []))"
      by (intro ordered_add) (simp_all add: child_names_single)
    moreover from a have "sorted (child_names (children (add t (Tree (File e) []))) @ rest)"
      by (simp add: child_names_single)
    ultimately show "ordered t'" using file_kept by blast
  qed
next
  case (skipped n b e rest t d f t' ls x)
  then show ?case by (blast intro: sorted_drop_middle)
qed simp_all

lemma sort_mset_cong:
  fixes xs ys :: "'a::linorder list"
  assumes "mset xs = mset ys"
  shows "sort xs = sort ys"
  by (rule properties_for_sort) (simp_all add: assms)

lemma project_os_same_entries: "same_entries project_os project_os_reordered"
  by (auto simp: same_entries_def project_os_def project_os_reordered_def table_os_def)

text \<open>
  C3.  In a tree that \<open>build_tree\<close> has built from a root, at every node the entry names of
  the \<open>Directory\<close> and \<open>File\<close> children ascend in the lexicographic order of strings (a
  \<open>PermissionDenied\<close> leaf carries no entry name).  The outcome is the same on every
  snapshot that has the same entries in each directory, in whatever order \<open>os.listdir\<close>
  enumerates them.
\<close>

theorem children_are_sorted:
  assumes "build_tree n fs base ed ef None = Some (t, ls, x)"
  shows "ordered t \<and>
         (\<forall>fs'. same_entries fs fs' \<longrightarrow> build_tree n fs' base ed ef None = Some (t, ls, x))"
proof
  from ordered_aux [OF assms] show "ordered t" by (simp add: tree_or_root_def)
next
  show "\<forall>fs'. same_entries fs fs' \<longrightarrow> build_tree n fs' base ed ef None = Some (t, ls, x)"
  proof (intro allI impI)
    fix fs'
    assume s: "same_entries fs fs'"
    have "map_sum id sort (listdir fs' p) = map_sum id sort (listdir fs p)" for p
    proof -
      from s have "map_sum id mset (listdir fs' p) = map_sum id mset (listdir fs p)"
        by (simp add: same_entries_def)
      then show ?thesis
        by (cases "listdir fs' p"; cases "listdir fs p") (auto intro: sort_mset_cong)
    qed
    moreover from s have "isdir fs' = isdir fs" "isfile fs' = isfile fs"
      by (simp_all add: same_entries_def)
    ultimately have "build_tree n fs' base ed ef None = build_tree n fs base ed ef None"
      by (rule build_tree_cong_os)
    with assms show "build_tree n fs' base ed ef None = Some (t, ls, x)" by simp
  qed
qed

theorem children_are_sorted_witness:
  "build_tree 3 project_os ''proj'' {} {} None =
     Some (Tree (Root ''proj'')
             [Tree (Directory ''.venv'') [Tree (File ''x.txt'') []],
              Tree (File ''readme.md'') [],
              Tree (Directory ''src'') [Tree (File ''a.py'') []]],
           [''proj'', ''proj/.venv'', ''proj/src''], None) \<and>
   ordered (Tree (Root ''proj'')
             [Tree (Directory ''.venv'') [Tree (File ''x.txt'') []],
              Tree (File ''readme.md'') [],
              Tree (Directory ''src'') [Tree (File ''a.py'') []]]) \<and>
   same_entries project_os project_os_reordered \<and>
   build_tree 3 project_os_reordered ''proj'' {} {} None =
     Some (Tree (Root ''proj'')
             [Tree (Directory ''.venv'') [Tree (File ''x.txt'') []],
              Tree (File ''readme.md'') [],
              Tree (Directory ''src'') [Tree (File ''a.py'') []]],
           [''proj'', ''proj/.venv'', ''proj/src''], None)"
proof -
  have r: "build_tree 3 project_os ''proj'' {} {} None =
     Some (Tree (Root ''proj'')
             [Tree (Directory ''.venv'') [Tree (File ''x.txt'') []],
              Tree (File ''readme.md'') [],
              Tree (Directory ''src'') [Tree (File ''a.py'') []]],
           [''proj'', ''proj/.venv'', ''proj/src''], None)"
    by (simp add: project_os_def table_os_def os_path_join_def add_def tree_or_root_def
        except_PermissionError_def numeral_3_eq_3)
  from children_are_sorted [OF r] project_os_same_entries r show ?thesis by blast
qed

section \<open>Symbolic links\<close>

lemma links_os_simps:
  "islink links_os ''proj/data''" "islink links_os ''proj/note''" "islink links_os ''proj/stale''"
  "isdir links_os ''proj/data'' = Inr True"
  "isdir links_os ''proj/note'' = Inr False" "isfile links_os ''proj/note'' = Inr True"
  "isdir links_os ''proj/stale'' = Inr False" "isfile links_os ''proj/stale'' = Inr False"
  by (simp_all add: links_os_def table_os_def)

lemma links_os_run:
  "build_tree (Suc 0) links_os ''proj/data'' {} {} (Some (Tree (Directory ''data'') [])) =
     Some (Tree (Directory ''data'') [Tree (File ''x.txt'') []], [''proj/data''], None)"
  by (simp add: links_os_def table_os_def os_path_join_def add_def tree_or_root_def
      except_PermissionError_def)

text \<open>
  C4, as the claim states it, fails: in \<open>links_os\<close> the entry \<open>data\<close> is a link to a
  directory and \<open>note\<close> a link to a regular file; \<open>data\<close> gets a \<open>Directory\<close> node and is
  listed, \<open>note\<close> gets a \<open>File\<close> node.
\<close>

theorem links_followed_counterexample:
  "islink links_os ''proj/data'' \<and> islink links_os ''proj/note'' \<and>
   build_tree 2 links_os ''proj'' {} {} None =
     Some (Tree (Root ''proj'')
             [Tree (Directory ''data'') [Tree (File ''x.txt'') []],
              Tree (File ''note'') []],
           [''proj'', ''proj/data''], None)"
  by (simp add: links_os_def table_os_def os_path_join_def add_def tree_or_root_def
      except_PermissionError_def numeral_2_eq_2)

text \<open>
  C4, amended.  The traversal never asks whether an entry is a link: its outcome is the
  same whatever \<open>os.path.islink\<close> answers.  What decides is \<open>os.path.isdir\<close> and
  \<open>os.path.isfile\<close>, which follow links.  A link that \<open>os.path.isdir\<close> accepts, with a
  name that is not an excluded directory name, is descended into: its path is listed and the
  tree built there is appended as a \<open>Directory\<close> child.  A link that \<open>os.path.isfile\<close>
  accepts, with a name that is not an excluded file name, is appended as a \<open>File\<close> child.
  An entry for which both answer false (a dangling link, a special file) gets no node and is
  not descended into.
\<close>

theorem links_are_classified_by_target:
  "build_tree n (fs\<lparr>islink := l\<rparr>) base ed ef tr = build_tree n fs base ed ef tr \<and>
   (islink fs (os_path_join base e) \<and> isdir fs (os_path_join base e) = Inr True \<and> e \<notin> ed \<and>
    build_tree n fs (os_path_join base e) ed ef (Some (Tree (Directory e) [])) = Some (sub, ls, None) \<longrightarrow>
      label sub = Directory e \<and> hd ls = os_path_join base e \<and>
      for_entries n fs base ed ef (e # rest) t =
        (case for_entries n fs base ed ef rest (add t sub) of
           None \<Rightarrow> None
         | Some (t', ls', x) \<Rightarrow> Some (t', ls @ ls', x))) \<and>
   (islink fs (os_path_join base e) \<and> isdir fs (os_path_join base e) = Inr False \<and>
    isfile fs (os_path_join base e) = Inr True \<and> e \<notin> ef \<longrightarrow>
      for_entries n fs base ed ef (e # rest) t =
        for_entries n fs base ed ef rest (add t (Tree (File e) []))) \<and>
   (isdir fs (os_path_join base e) = Inr False \<and> isfile fs (os_path_join base e) = Inr False \<longrightarrow>
      for_entries n fs base ed ef (e # rest) t = for_entries n fs base ed ef rest t)"
proof -
  have 1: "build_tree n (fs\<lparr>islink := l\<rparr>) base ed ef tr = build_tree n fs base ed ef tr"
    by (rule build_tree_cong_os) simp_all
  have 2: "label sub = Directory e \<and> hd ls = os_path_join base e"
    if "build_tree n fs (os_path_join base e) ed ef (Some (Tree (Directory e) [])) = Some (sub, ls, None)"
  proof
    from build_tree_extends [OF that] show "label sub = Directory e"
      by (simp add: tree_or_root_def)
    from that show "hd ls = os_path_join base e" by (cases rule: build_tree_cases) simp_all
  qed
  from 1 2 show ?thesis by simp
qed

theorem links_are_classified_by_target_witness:
  "build_tree 2 (links_os\<lparr>islink := (\<lambda>p. False)\<rparr>) ''proj'' {} {} None =
     build_tree 2 links_os ''proj'' {} {} None \<and>
   islink links_os ''proj/data'' \<and> isdir links_os ''proj/data'' = Inr True \<and>
   for_entries 1 links_os ''proj'' {} {} [''data''] (Tree (Root ''proj'') []) =
     Some (Tree (Root ''proj'') [Tree (Directory ''data'') [Tree (File ''x.txt'') []]],
           [''proj/data''], None) \<and>
   islink links_os ''proj/note'' \<and> isfile links_os ''proj/note'' = Inr True \<and>
   for_entries 1 links_os ''proj'' {} {} [''note''] (Tree (Root ''proj'') []) =
     Some (Tree (Root ''proj'') [Tree (File ''note'') []], [], None) \<and>
   islink links_os ''proj/stale'' \<and>
   isdir links_os ''proj/stale'' = Inr False \<and> isfile links_os ''proj/stale'' = Inr False \<and>
   for_entries 1 links_os ''proj'' {} {} [''stale''] (Tree (Root ''proj'') []) =
     Some (Tree (Root ''proj'') [], [], None)"
proof -
  have j: "os_path_join ''proj'' ''data'' = ''proj/data''"
    "os_path_join ''proj'' ''note'' = ''proj/note''"
    "os_path_join ''proj'' ''stale'' = ''proj/stale''"
    by (simp_all add: os_path_join_def)
  from links_are_classified_by_target
    [where n = 2 and fs = links_os and l = "\<lambda>p. False" and base = "''proj''" and ed = "{}"
       and ef = "{}" and tr = None]
  have 1: "build_tree 2 (links_os\<lparr>islink := (\<lambda>p. False)\<rparr>) ''proj'' {} {} None =
     build_tree 2 links_os ''proj'' {} {} None" by (rule conjunct1)
  from links_are_classified_by_target
    [where n = 1 and fs = links_os and base = "''proj''" and ed = "{}" and ef = "{}"
       and e = "''data''" and rest = "[]" and t = "Tree (Root ''proj'') []"
       and sub = "Tree (Directory ''data'') [Tree (File ''x.txt'') []]" and ls = "[''proj/data'']"]
  have 2: "for_entries 1 links_os ''proj'' {} {} [''data''] (Tree (Root ''proj'') []) =
     Some (Tree (Root ''proj'') [Tree (Directory ''data'') [Tree (File ''x.txt'') []]],
           [''proj/data''], None)"
    by (simp add: j links_os_simps links_os_run add_def del: for_entries.simps(2) build_tree.simps)
  from links_are_classified_by_target
    [where n = 1 and fs = links_os and base = "''proj''" and ed = "{}" and ef = "{}"
       and e = "''note''" and rest = "[]" and t = "Tree (Root ''proj'') []"]
  have 3: "for_entries 1 links_os ''proj'' {} {} [''note''] (Tree (Root ''proj'') []) =
     Some (Tree (Root ''proj'') [Tree (File ''note'') []], [], None)"
    by (simp add: j links_os_simps add_def del: for_entries.simps(2) build_tree.simps)
  from links_are_classified_by_target
    [where n = 1 and fs = links_os and base = "''proj''" and ed = "{}" and ef = "{}"
       and e = "''stale''" and rest = "[]" and t = "Tree (Root ''proj'') []"]
  have 4: "for_entries 1 links_os ''proj'' {} {} [''stale''] (Tree (Root ''proj'') []) =
     Some (Tree (Root ''proj'') [], [], None)"
    by (simp add: j links_os_simps del: for_entries.simps(2) build_tree.simps)
  from 1 2 3 4 show ?thesis by (simp add: links_os_simps)
qed

section \<open>Loading the exclusions\<close>

text \<open>
  C5, as the claim states it, fails: a configuration file that cannot be read
  (\<open>PermissionError\<close>) and a JSON text of another shape (an array at the top, a number where
  an array is expected) make \<open>load_exclusions\<close> raise, and a string where an array is
  expected gives the set of its characters without any warning.
\<close>

theorem load_exclusions_counterexample:
  "load_exclusions (\<lambda>p. Inl PermissionError) ''exclusions.json'' = Inl PermissionError \<and>
   load_exclusions (\<lambda>p. Inr (JArray [JString ''.venv''])) ''exclusions.json'' = Inl AttributeError \<and>
   load_exclusions (\<lambda>p. Inr (JObject [(''exclude_dirs'', JNumber ''5'')])) ''exclusions.json'' =
     Inl TypeError \<and>
   load_exclusions (\<lambda>p. Inr (JObject [(''exclude_dirs'', JString ''ab'')])) ''exclusions.json'' =
     Inr ([], {''a'', ''b''}, {})"
  by (simp add: load_exclusions_def load_exclusions_body_def py_set_def dict_get_def hashable_def)

text \<open>
  C5, amended.  When the file is missing (\<open>FileNotFoundError\<close>) or its text is not JSON
  (\<open>JSONDecodeError\<close>), \<open>load_exclusions\<close> prints the warning and returns two empty sets;
  every other exception of opening and parsing is raised to the caller.
\<close>

theorem load_exclusions_handled_errors:
  "(json_load config_file = Inl FileNotFoundError \<or> json_load config_file = Inl JSONDecodeError \<longrightarrow>
      load_exclusions json_load config_file = Inr ([config_file], {}, {})) \<and>
   (\<forall>e. json_load config_file = Inl e \<and> e \<noteq> FileNotFoundError \<and> e \<noteq> JSONDecodeError \<longrightarrow>
      load_exclusions json_load config_file = Inl e)"
  by (auto simp: load_exclusions_def load_exclusions_body_def)

theorem load_exclusions_handled_errors_witness:
  "load_exclusions (\<lambda>p. if p = ''exclusions.json'' then Inl FileNotFoundError else Inl JSONDecodeError)
     ''exclusions.json'' = Inr ([''exclusions.json''], {}, {}) \<and>
   load_exclusions (\<lambda>p. if p = ''exclusions.json'' then Inl FileNotFoundError else Inl JSONDecodeError)
     ''broken.json'' = Inr ([''broken.json''], {}, {}) \<and>
   load_exclusions (\<lambda>p. Inl IsADirectoryError) ''exclusions.json'' = Inl IsADirectoryError"
  using load_exclusions_handled_errors
      [of "\<lambda>p. if p = ''exclusions.json'' then Inl FileNotFoundError else Inl JSONDecodeError"
          "''exclusions.json''"]
    load_exclusions_handled_errors
      [of "\<lambda>p. if p = ''exclusions.json'' then Inl FileNotFoundError else Inl JSONDecodeError"
          "''broken.json''"]
    load_exclusions_handled_errors [of "\<lambda>p. Inl IsADirectoryError" "''exclusions.json''"]
  by simp

section \<open>Other failures of listing\<close>

text \<open>
  When a listed directory fails with another exception than \<open>PermissionError\<close>, the call
  raises it; a \<open>PermissionDenied\<close> leaf is only made for a directory whose listing raised
  \<open>PermissionError\<close> or succeeded.
\<close>

lemma listing_failure_aux:
  assumes "build_tree n fs b ed ef tr = Some (t', ls, x)"
  shows "(\<forall>p a. p \<in> set ls \<and> listdir fs p = Inl a \<and> a \<noteq> PermissionError \<longrightarrow> x = Some a) \<and>
         (\<forall>p. PermissionDenied p \<in> labels t' \<longrightarrow>
            PermissionDenied p \<in> labels (tree_or_root b tr) \<or>
            listdir fs p = Inl PermissionError \<or> (\<exists>es. listdir fs p = Inr es))"
  using assms
proof (induction rule: build_tree_run_induct
      [where Q = "\<lambda>n b es t t' ls x.
         (\<forall>p a. p \<in> set ls \<and> listdir fs p = Inl a \<and> a \<noteq> PermissionError \<longrightarrow> x = Some a) \<and>
         (\<forall>p. PermissionDenied p \<in> labels t' \<longrightarrow>
            PermissionDenied p \<in> labels t \<or>
            listdir fs p = Inl PermissionError \<or> (\<exists>es. listdir fs p = Inr es))"])
  case (subdir n b e rest t sub ls1 t' ls2 x)
  then show ?case by (auto simp: tree_or_root_def)
next
  case (subdir_raises n b e rest t sub ls a)
  then show ?case by (auto simp: tree_or_root_def)
qed auto

lemma vanished_os_run:
  "build_tree 2 vanished_os ''proj'' {} {} None =
     Some (Tree (Root ''proj'') [Tree (File ''a.txt'') [], Tree (Directory ''gone'') []],
           [''proj'', ''proj/gone''], Some FileNotFoundError)"
  by (simp add: vanished_os_def table_os_def os_path_join_def add_def tree_or_root_def
      except_PermissionError_def numeral_2_eq_2)

text \<open>
  C6, as the claim states it, fails: in \<open>vanished_os\<close> the directory \<open>gone\<close> is removed
  before it is listed; \<open>os.listdir\<close> raises \<open>FileNotFoundError\<close>, which leaves
  \<open>build_tree\<close> with no leaf recorded, and the entry \<open>zz.txt\<close> after it is never reached.
\<close>

theorem other_listing_errors_counterexample:
  "listdir vanished_os ''proj/gone'' = Inl FileNotFoundError \<and>
   build_tree 2 vanished_os ''proj'' {} {} None =
     Some (Tree (Root ''proj'') [Tree (File ''a.txt'') [], Tree (Directory ''gone'') []],
           [''proj'', ''proj/gone''], Some FileNotFoundError)"
  by (simp add: vanished_os_def table_os_def os_path_join_def add_def tree_or_root_def
      except_PermissionError_def numeral_2_eq_2)

text \<open>
  C6, amended.  Only \<open>PermissionError\<close> is handled.  When \<open>os.listdir\<close> raises another
  exception for a directory that \<open>build_tree\<close> (started on a root) lists, that exception
  leaves the outermost call, and the tree as the call leaves it has no \<open>PermissionDenied\<close>
  leaf for that directory.
\<close>

theorem other_listing_errors_propagate:
  assumes "build_tree n fs base ed ef None = Some (t, ls, x)"
    and "p \<in> set ls" and "listdir fs p = Inl a" and "a \<noteq> PermissionError"
  shows "x = Some a \<and> PermissionDenied p \<notin> labels t"
  using listing_failure_aux [OF assms(1)] assms(2-4) by auto

theorem other_listing_errors_propagate_witness:
  "build_tree 2 vanished_os ''proj'' {} {} None =
     Some (Tree (Root ''proj'') [Tree (File ''a.txt'') [], Tree (Directory ''gone'') []],
           [''proj'', ''proj/gone''], Some FileNotFoundError) \<and>
   ''proj/gone'' \<in> set [''proj'', ''proj/gone''] \<and>
   listdir vanished_os ''proj/gone'' = Inl FileNotFoundError \<and>
   FileNotFoundError \<noteq> PermissionError \<and>
   PermissionDenied ''proj/gone'' \<notin>
     labels (Tree (Root ''proj'') [Tree (File ''a.txt'') [], Tree (Directory ''gone'') []])"
proof -
  have 2: "''proj/gone'' \<in> set [''proj'', ''proj/gone'']" by simp
  have 3: "listdir vanished_os ''proj/gone'' = Inl FileNotFoundError"
    by (simp add: vanished_os_def table_os_def)
  have 4: "FileNotFoundError \<noteq> PermissionError" by simp
  from other_listing_errors_propagate [OF vanished_os_run 2 3 4] vanished_os_run 2 3
  show ?thesis by simp
qed

section \<open>Termination\<close>


















section \<open>Determinism\<close>



section \<open>Exclusions by kind\<close>

text \<open>
  With \<open>os.path.isdir\<close> and \<open>os.path.isfile\<close> that never raise, a call that returns has
  worked through all entries of its directory: each regular file whose name is not an
  excluded file name is a \<open>File\<close> child, and each directory whose name is not an excluded
  directory name is a \<open>Directory\<close> child, built by the recursive call on its path.
\<close>

lemma kept_entries_aux:
  assumes "build_tree n fs b ed ef tr = Some (t', ls, x)"
  shows "answers fs \<and> x = None \<longrightarrow>
         (\<forall>entries. listdir fs b = Inr entries \<longrightarrow> (\<forall>e \<in> set entries.
            (isdir fs (os_path_join b e) = Inr False \<and> isfile fs (os_path_join b e) = Inr True \<and>
             e \<notin> ef \<longrightarrow> Tree (File e) [] \<in> set (children t')) \<and>
            (isdir fs (os_path_join b e) = Inr True \<and> e \<notin> ed \<longrightarrow>
               (\<exists>m sub ls'. build_tree m fs (os_path_join b e) ed ef (Some (Tree (Directory e) [])) =
                    Some (sub, ls', None) \<and>
                  sub \<in> set (children t') \<and> label sub = Directory e \<and>
                  os_path_join b e \<in> set ls))))"
  using assms
proof (induction rule: build_tree_run_induct
      [where Q = "\<lambda>n b es t t' ls x. answers fs \<longrightarrow> x \<noteq> Some PermissionError \<and> (x = None \<longrightarrow>
         (\<forall>e \<in> set es.
            (isdir fs (os_path_join b e) = Inr False \<and> isfile fs (os_path_join b e) = Inr True \<and>
             e \<notin> ef \<longrightarrow> Tree (File e) [] \<in> set (children t')) \<and>
            (isdir fs (os_path_join b e) = Inr True \<and> e \<notin> ed \<longrightarrow>
               (\<exists>m sub ls'. build_tree m fs (os_path_join b e) ed ef (Some (Tree (Directory e) [])) =
                    Some (sub, ls', None) \<and>
                  sub \<in> set (children t') \<and> label sub = Directory e \<and>
                  os_path_join b e \<in> set ls))))"])
  case (denied n b tr)
  then show ?case by simp
next
  case (failed n b tr a)
  then show ?case by simp
next
  case (interrupted n b tr entries t1 ls1)
  then show ?case by simp
next
  case (listed n b tr entries t1 ls1 x)
  then show ?case by simp blast
next
  case (nil n b t)
  then show ?case by simp
next
  case (isdir_raises n b e rest t a)
  then show ?case by (auto dest: answers_not_Inl)
next
  case (subdir_raises n b e rest t sub ls a)
  from subdir_raises build_tree_not_PermissionError [of n fs "os_path_join b e" ed ef _ sub ls "Some a"]
  show ?case by auto
next
  case (subdir n b e rest t sub ls1 t' ls2 x)
  from subdir have bt: "build_tree n fs (os_path_join b e) ed ef (Some (Tree (Directory e) [])) =
      Some (sub, ls1, None)" by simp
  from build_tree_extends [OF bt] have l: "label sub = Directory e" by (simp add: tree_or_root_def)
  from build_tree_lists_base [OF bt] have m: "os_path_join b e \<in> set ls1" .
  from subdir have "for_entries n fs b ed ef rest (add t sub) = Some (t', ls2, x)" by simp
  from for_entries_extends [OF this] have c: "sub \<in> set (children t')" by auto
  show ?case
  proof (intro impI conjI ballI)
    assume "answers fs"
    with subdir show "x \<noteq> Some PermissionError" by simp
  next
    fix e'
    assume a: "answers fs" "x = None" "e' \<in> set (e # rest)"
      "isdir fs (os_path_join b e') = Inr False \<and> isfile fs (os_path_join b e') = Inr True \<and> e' \<notin> ef"
    with subdir show "Tree (File e') [] \<in> set (children t')" by auto
  next
    fix e'
    assume a: "answers fs" "x = None" "e' \<in> set (e # rest)"
      "isdir fs (os_path_join b e') = Inr True \<and> e' \<notin> ed"
    show "\<exists>m sub ls'. build_tree m fs (os_path_join b e') ed ef (Some (Tree (Directory e') [])) =
                    Some (sub, ls', None) \<and>
                  sub \<in> set (children t') \<and> label sub = Directory e' \<and>
                  os_path_join b e' \<in> set (ls1 @ ls2)"
    proof (cases "e' = e")
      case True
      with bt c l m show ?thesis by auto
    next
      case False
      with a have "e' \<in> set rest" by simp
      with subdir a obtain m sub' ls' where
        "build_tree m fs (os_path_join b e') ed ef (Some (Tree (Directory e') [])) = Some (sub', ls', None)"
        "sub' \<in> set (children t')" "label sub' = Directory e'" "os_path_join b e' \<in> set ls2"
        by blast
      then show ?thesis by auto
    qed
  qed
next
  case (isfile_raises n b e rest t d a)
  then show ?case by (auto dest: answers_not_Inl)
next
  case (file_kept n b e rest t d t' ls x)
  from file_kept have "for_entries n fs b ed ef rest (add t (Tree (File e) [])) = Some (t', ls, x)"
    by simp
  from for_entries_extends [OF this] have c: "Tree (File e) [] \<in> set (children t')" by auto
  with file_kept show ?case by auto
next
  case (skipped n b e rest t d f t' ls x)
  then show ?case by auto
qed

lemma kinds_os_answers: "answers kinds_os"
  by (simp add: answers_def kinds_os_def table_os_def)

lemma kinds_os_run:
  "build_tree 2 kinds_os ''proj'' {''build''} {''notes''} None =
     Some (Tree (Root ''proj'')
             [Tree (File ''build'') [],
              Tree (Directory ''notes'') [Tree (File ''t.txt'') []]],
           [''proj'', ''proj/notes''], None)"
  by (simp add: kinds_os_def table_os_def os_path_join_def add_def tree_or_root_def
      except_PermissionError_def numeral_2_eq_2)

text \<open>
  C9.  Let \<open>build_tree\<close> return \<open>t\<close> for the directory \<open>base\<close>, and let \<open>e\<close> be one of its
  entries.  If \<open>e\<close> is a regular file whose name is in \<open>exclude_dirs\<close> and not in
  \<open>exclude_files\<close>, then \<open>t\<close> has the child \<open>File e\<close>.  If \<open>e\<close> is a directory whose name is in
  \<open>exclude_files\<close> and not in \<open>exclude_dirs\<close>, then its path was listed and \<open>t\<close> has a child
  labelled \<open>Directory e\<close>, which is the tree that \<open>build_tree\<close> returns for that path.
\<close>

theorem exclusions_are_kind_specific:
  assumes "answers fs"
    and "build_tree n fs base ed ef tr = Some (t, ls, None)"
    and "listdir fs base = Inr entries" and "e \<in> set entries"
  shows "(isdir fs (os_path_join base e) = Inr False \<and> isfile fs (os_path_join base e) = Inr True \<and>
          e \<in> ed \<and> e \<notin> ef \<longrightarrow> Tree (File e) [] \<in> set (children t)) \<and>
         (isdir fs (os_path_join base e) = Inr True \<and> e \<in> ef \<and> e \<notin> ed \<longrightarrow>
            (\<exists>m sub ls'. build_tree m fs (os_path_join base e) ed ef (Some (Tree (Directory e) [])) =
                 Some (sub, ls', None) \<and>
               sub \<in> set (children t) \<and> label sub = Directory e \<and>
               os_path_join base e \<in> set ls))"
  using kept_entries_aux [OF assms(2)] assms(1,3,4) by blast

theorem exclusions_are_kind_specific_witness:
  "answers kinds_os \<and>
   build_tree 2 kinds_os ''proj'' {''build''} {''notes''} None =
     Some (Tree (Root ''proj'')
             [Tree (File ''build'') [],
              Tree (Directory ''notes'') [Tree (File ''t.txt'') []]],
           [''proj'', ''proj/notes''], None) \<and>
   listdir kinds_os ''proj'' = Inr [''notes'', ''build''] \<and>
   isdir kinds_os ''proj/build'' = Inr False \<and> isfile kinds_os ''proj/build'' = Inr True \<and>
   ''build'' \<in> {''build''} \<and> ''build'' \<notin> {''notes''} \<and>
   Tree (File ''build'') [] \<in>
     set [Tree (File ''build'') [], Tree (Directory ''notes'') [Tree (File ''t.txt'') []]] \<and>
   isdir kinds_os ''proj/notes'' = Inr True \<and>
   ''notes'' \<in> {''notes''} \<and> ''notes'' \<notin> {''build''} \<and>
   (\<exists>m sub ls'. build_tree m kinds_os ''proj/notes'' {''build''} {''notes''}
        (Some (Tree (Directory ''notes'') [])) = Some (sub, ls', None) \<and>
      sub \<in> set [Tree (File ''build'') [], Tree (Directory ''notes'') [Tree (File ''t.txt'') []]] \<and>
      label sub = Directory ''notes'' \<and>
      ''proj/notes'' \<in> set [''proj'', ''proj/notes''])"
proof -
  have l: "listdir kinds_os ''proj'' = Inr [''notes'', ''build'']"
    by (simp add: kinds_os_def table_os_def)
  have c: "isdir kinds_os ''proj/build'' = Inr False" "isfile kinds_os ''proj/build'' = Inr True"
    "isdir kinds_os ''proj/notes'' = Inr True"
    by (simp_all add: kinds_os_def table_os_def)
  have j: "os_path_join ''proj'' ''build'' = ''proj/build''"
    "os_path_join ''proj'' ''notes'' = ''proj/notes''"
    by (simp_all add: os_path_join_def)
  have "''build'' \<in> set [''notes'', ''build'']" by simp
  from exclusions_are_kind_specific [OF kinds_os_answers kinds_os_run l this] c
  have 1: "Tree (File ''build'') [] \<in>
     set [Tree (File ''build'') [], Tree (Directory ''notes'') [Tree (File ''t.txt'') []]]"
    by (simp add: j)
  have "''notes'' \<in> set [''notes'', ''build'']" by simp
  from exclusions_are_kind_specific [OF kinds_os_answers kinds_os_run l this] c
  have 2: "\<exists>m sub ls'. build_tree m kinds_os ''proj/notes'' {''build''} {''notes''}
        (Some (Tree (Directory ''notes'') [])) = Some (sub, ls', None) \<and>
      sub \<in> set [Tree (File ''build'') [], Tree (Directory ''notes'') [Tree (File ''t.txt'') []]] \<and>
      label sub = Directory ''notes'' \<and>
      ''proj/notes'' \<in> set [''proj'', ''proj/notes'']"
    by (simp add: j)
  from kinds_os_answers kinds_os_run l c 1 2 show ?thesis by simp
qed

section \<open>A PermissionError in the middle of the loop\<close>

text \<open>
  C10.  The listing of \<open>base\<close> has succeeded and the loop has worked through the entries
  \<open>before\<close>, which leaves the node as \<open>t1\<close>.  If classifying the next entry \<open>e\<close> raises
  \<open>PermissionError\<close> (from \<open>os.path.isdir\<close>, or from \<open>os.path.isfile\<close> when the first test
  has failed), the call returns \<open>t1\<close> with one more child, a \<open>PermissionDenied\<close> leaf labelled
  with \<open>base\<close> and not with the path of \<open>e\<close>: the children appended so far are kept and the
  entries \<open>rest\<close> are never looked at.  The recursive call of line 73 never raises
  \<open>PermissionError\<close>, so these are the two places it can come from.
\<close>

theorem permission_error_partway:
  assumes "listdir fs base = Inr entries"
    and "sort entries = before @ e # rest"
    and "for_entries n fs base ed ef before (tree_or_root base tr) = Some (t1, ls1, None)"
    and "isdir fs (os_path_join base e) = Inl PermissionError \<or>
         (\<exists>d. isdir fs (os_path_join base e) = Inr d \<and> \<not> (d \<and> e \<notin> ed) \<and>
              isfile fs (os_path_join base e) = Inl PermissionError)"
  shows "build_tree (Suc n) fs base ed ef tr =
           Some (add t1 (Tree (PermissionDenied base) []), base # ls1, None)"
proof -
  from assms(4) have "for_entries n fs base ed ef (e # rest) t1 = Some (t1, [], Some PermissionError)"
    by (auto simp: Let_def)
  with assms(3)
  have "for_entries n fs base ed ef (before @ e # rest) (tree_or_root base tr) =
          Some (t1, ls1, Some PermissionError)"
    by (simp add: for_entries_append)
  with assms(1,2) show ?thesis
    by (simp add: except_PermissionError_def)
qed

theorem permission_error_partway_witness:
  "listdir raising_os ''proj'' = Inr [''c.txt'', ''a.txt'', ''b.txt''] \<and>
   sort [''c.txt'', ''a.txt'', ''b.txt''] = [''a.txt''] @ ''b.txt'' # [''c.txt''] \<and>
   for_entries 0 raising_os ''proj'' {} {} [''a.txt''] (Tree (Root ''proj'') []) =
     Some (Tree (Root ''proj'') [Tree (File ''a.txt'') []], [], None) \<and>
   isdir raising_os ''proj/b.txt'' = Inl PermissionError \<and>
   build_tree 1 raising_os ''proj'' {} {} None =
     Some (Tree (Root ''proj'') [Tree (File ''a.txt'') [], Tree (PermissionDenied ''proj'') []],
           [''proj''], None)"
proof -
  have 1: "listdir raising_os ''proj'' = Inr [''c.txt'', ''a.txt'', ''b.txt'']"
    by (simp add: raising_os_def table_os_def)
  have 2: "sort [''c.txt'', ''a.txt'', ''b.txt''] = [''a.txt''] @ ''b.txt'' # [''c.txt'']"
    by simp
  have 3: "for_entries 0 raising_os ''proj'' {} {} [''a.txt''] (tree_or_root ''proj'' None) =
     Some (Tree (Root ''proj'') [Tree (File ''a.txt'') []], [], None)"
    by (simp add: raising_os_def table_os_def os_path_join_def add_def tree_or_root_def)
  have 4: "isdir raising_os ''proj/b.txt'' = Inl PermissionError"
    by (simp add: raising_os_def table_os_def)
  have 5: "isdir raising_os (os_path_join ''proj'' ''b.txt'') = Inl PermissionError \<or>
         (\<exists>d. isdir raising_os (os_path_join ''proj'' ''b.txt'') = Inr d \<and> \<not> (d \<and> ''b.txt'' \<notin> {}) \<and>
              isfile raising_os (os_path_join ''proj'' ''b.txt'') = Inl PermissionError)"
    using 4 by (simp add: os_path_join_def)
  from permission_error_partway [OF 1 2 3 5] 1 2 3 4 show ?thesis
    by (simp add: add_def tree_or_root_def)
qed

end
